theory Spec2Isabelle
  imports Main
begin

section \<open>Data model\<close>

text \<open>
  The development follows \<^verbatim>\<open>external-dns.go\<close>. A Go \<^verbatim>\<open>error\<close> is represented by its
  message (what \<^verbatim>\<open>%v\<close> prints), so \<^verbatim>\<open>fmt.Errorf("...: %v", err)\<close> is the prefix
  followed by the message of \<open>err\<close>; a \<^verbatim>\<open>nil\<close> error is \<open>None\<close>.
\<close>

type_synonym error = string

text \<open>\<^verbatim>\<open>providers.DnsRecord\<close>, with the fields in the order of the positional literal
  \<^verbatim>\<open>providers.DnsRecord{domainName, records, "A", 300}\<close>.\<close>

record DnsRecord =
  DomainName :: string
  Records :: "string list"
  Type :: string
  TTL :: int

text \<open>A Go \<^verbatim>\<open>map[string]providers.DnsRecord\<close>.\<close>

type_synonym RecordSet = "string \<rightharpoonup> DnsRecord"

text \<open>The fields of \<^verbatim>\<open>metadata.Container\<close> and \<^verbatim>\<open>metadata.Host\<close> that the program reads.\<close>

record Container =
  Name :: string
  ServiceName :: string
  StackName :: string
  HostUUID :: string

record Host =
  AgentIP :: string

text \<open>The two calls made on \<^verbatim>\<open>metadata.Handler\<close>, as the answers the discovery source
  gives during one pass.\<close>

record Handler =
  GetContainers :: "error + Container list"
  GetHost :: "string \<Rightarrow> error + Host"

datatype Op = Add | Remove | Update

section \<open>String helpers of the Go library\<close>

text \<open>\<^verbatim>\<open>strings.Join\<close> and \<^verbatim>\<open>strings.HasSuffix\<close>. \<^verbatim>\<open>strings.ToLower\<close> is a parameter
  \<open>lower\<close> of the functions that call it; \<open>ToLower_ascii\<close> is what it computes on ASCII
  text (bytes \<open>A\<close> to \<open>Z\<close> moved to \<open>a\<close> to \<open>z\<close>) and is used for concrete inputs.\<close>

fun Join :: "string list \<Rightarrow> string \<Rightarrow> string" where
  "Join [] sep = []"
| "Join [x] sep = x"
| "Join (x # y # ys) sep = x @ sep @ Join (y # ys) sep"

definition HasSuffix :: "string \<Rightarrow> string \<Rightarrow> bool" where
  "HasSuffix s suffix =
     (length s \<ge> length suffix \<and> drop (length s - length suffix) s = suffix)"

definition lower_byte :: "char \<Rightarrow> char" where
  "lower_byte c =
     (let n = (of_char c :: nat) in if 65 \<le> n \<and> n \<le> 90 then char_of (n + 32) else c)"

definition ToLower_ascii :: "string \<Rightarrow> string" where
  "ToLower_ascii s = map lower_byte s"

section \<open>Building the desired state\<close>

text \<open>Indexing a Go map at an absent key gives the zero value of the element type.\<close>

definition zero_DnsRecord :: DnsRecord where
  "zero_DnsRecord = \<lparr>DomainName = [], Records = [], Type = [], TTL = 0\<rparr>"

definition index :: "RecordSet \<Rightarrow> string \<Rightarrow> DnsRecord" where
  "index m k = (case m k of None \<Rightarrow> zero_DnsRecord | Some r \<Rightarrow> r)"

text \<open>\<^verbatim>\<open>addToDnsEntries\<close> (lines 222-232); the map is updated in place in Go and returned
  here.\<close>

definition addToDnsEntries :: "DnsRecord \<Rightarrow> RecordSet \<Rightarrow> RecordSet" where
  "addToDnsEntries dnsEntry dnsEntries =
     (let records =
        (if dnsEntries (DomainName dnsEntry) \<noteq> None then Records dnsEntry
         else Records (index dnsEntries (DomainName dnsEntry)) @ Records dnsEntry);
          dnsEntry' = \<lparr>DomainName = DomainName dnsEntry, Records = records,
                        Type = ''A'', TTL = 300\<rparr>
      in dnsEntries(DomainName dnsEntry' \<mapsto> dnsEntry'))"

text \<open>The body of the loop of \<^verbatim>\<open>getContainersDnsRecords\<close> (lines 186-217): every
  \<^verbatim>\<open>continue\<close> leaves the map as it is.\<close>

definition container_step ::
  "(string \<Rightarrow> string) \<Rightarrow> string \<Rightarrow> string \<Rightarrow> Handler \<Rightarrow> string \<Rightarrow> string
     \<Rightarrow> Container \<Rightarrow> RecordSet \<Rightarrow> RecordSet" where
  "container_step lower EnvironmentName RootDomainName m serviceName stackName container dnsEntries =
     (if length (ServiceName container) = 0 then dnsEntries
      else if length serviceName \<noteq> 0 \<and> serviceName \<noteq> ServiceName container then dnsEntries
      else if length serviceName \<noteq> 0 \<and> stackName \<noteq> StackName container then dnsEntries
      else
        let hostUUID = HostUUID container in
        if length hostUUID = 0 then dnsEntries
        else
          (case GetHost m hostUUID of
             Inl err \<Rightarrow> dnsEntries
           | Inr host \<Rightarrow>
               let ip = AgentIP host;
                   domainNameEntries =
                     [ServiceName container, StackName container, EnvironmentName, RootDomainName];
                   domainName = lower (Join domainNameEntries ''.'');
                   records = [ip];
                   dnsEntry = \<lparr>DomainName = domainName, Records = records,
                                Type = ''A'', TTL = 300\<rparr>
               in addToDnsEntries dnsEntry dnsEntries))"

text \<open>\<^verbatim>\<open>getContainersDnsRecords\<close> (lines 180-220) returns the error and leaves the entries
  in the map it was given; here both are returned.\<close>

definition getContainersDnsRecords ::
  "(string \<Rightarrow> string) \<Rightarrow> string \<Rightarrow> string \<Rightarrow> Handler \<Rightarrow> RecordSet \<Rightarrow> string \<Rightarrow> string
     \<Rightarrow> RecordSet \<times> error option" where
  "getContainersDnsRecords lower EnvironmentName RootDomainName m dnsEntries serviceName stackName =
     (case GetContainers m of
        Inl err \<Rightarrow> (dnsEntries, Some err)
      | Inr containers \<Rightarrow>
          (fold (container_step lower EnvironmentName RootDomainName m serviceName stackName)
             containers dnsEntries, None))"

text \<open>\<^verbatim>\<open>getMetadataDnsRecords\<close> (lines 171-178).\<close>

definition getMetadataDnsRecords ::
  "(string \<Rightarrow> string) \<Rightarrow> string \<Rightarrow> string \<Rightarrow> Handler \<Rightarrow> RecordSet \<times> error option" where
  "getMetadataDnsRecords lower EnvironmentName RootDomainName m =
     getContainersDnsRecords lower EnvironmentName RootDomainName m Map.empty [] []"

section \<open>Reading the provider's state\<close>

text \<open>\<^verbatim>\<open>getProviderDnsRecords\<close> (lines 155-169); \<open>getRecords\<close> is what
  \<^verbatim>\<open>provider.GetRecords()\<close> answers.\<close>

definition getProviderDnsRecords ::
  "(string \<Rightarrow> string) \<Rightarrow> string \<Rightarrow> string \<Rightarrow> error + DnsRecord list \<Rightarrow> error + RecordSet" where
  "getProviderDnsRecords lower EnvironmentName RootDomainName getRecords =
     (case getRecords of
        Inl err \<Rightarrow> Inl err
      | Inr allRecords \<Rightarrow>
          let joins = [EnvironmentName, RootDomainName];
              suffix = lower (Join joins ''.'')
          in Inr (fold (\<lambda>value ourRecords.
                          if HasSuffix (DomainName value) suffix
                          then ourRecords(DomainName value \<mapsto> value) else ourRecords)
                    allRecords Map.empty))"

section \<open>The three differences\<close>

text \<open>A \<^verbatim>\<open>for key := range m\<close> loop visits every key of the map once, in an order that the
  Go runtime chooses. The loops below take that order as the list \<open>ks\<close>; \<open>enumerates ks m\<close>
  says that \<open>ks\<close> is such an order for \<open>m\<close>.\<close>

definition enumerates :: "string list \<Rightarrow> RecordSet \<Rightarrow> bool" where
  "enumerates ks m = (distinct ks \<and> set ks = dom m)"

text \<open>The loop of \<^verbatim>\<open>addMissingRecords\<close> (lines 40-45).\<close>

definition toAdd :: "string list \<Rightarrow> RecordSet \<Rightarrow> RecordSet \<Rightarrow> DnsRecord list" where
  "toAdd ks metadataRecs providerRecs =
     fold (\<lambda>key acc. if providerRecs key = None then acc @ [index metadataRecs key] else acc)
       ks []"

text \<open>The loop of \<^verbatim>\<open>removeExtraRecords\<close> (lines 139-144).\<close>

definition toRemove :: "string list \<Rightarrow> RecordSet \<Rightarrow> RecordSet \<Rightarrow> DnsRecord list" where
  "toRemove ks metadataRecs providerRecs =
     fold (\<lambda>key acc. if metadataRecs key = None then acc @ [index providerRecs key] else acc)
       ks []"

text \<open>Lines 98-121 of \<^verbatim>\<open>updateExistingRecords\<close>: the two value lists are loaded into
  \<^verbatim>\<open>map[string]struct{}\<close> sets, \<^verbatim>\<open>len\<close> of such a map is the number of its keys, and
  each of the two inner loops sets \<^verbatim>\<open>update\<close> when it meets a key that the other set
  lacks.\<close>

definition value_set :: "string list \<Rightarrow> string set" where
  "value_set records = fold (\<lambda>s R. insert s R) records {}"

definition update :: "DnsRecord \<Rightarrow> DnsRecord \<Rightarrow> bool" where
  "update metadataRec providerRec =
     (let metadataR = value_set (Records metadataRec);
          providerR = value_set (Records providerRec)
      in if card metadataR \<noteq> card providerR then True
         else (\<exists>key \<in> metadataR. key \<notin> providerR) \<or> (\<exists>key \<in> providerR. key \<notin> metadataR))"

text \<open>The outer loop of \<^verbatim>\<open>updateExistingRecords\<close> (lines 95-126).\<close>

definition toUpdate :: "string list \<Rightarrow> RecordSet \<Rightarrow> RecordSet \<Rightarrow> DnsRecord list" where
  "toUpdate ks metadataRecs providerRecs =
     fold (\<lambda>key acc.
             if providerRecs key \<noteq> None
             then (if update (index metadataRecs key) (index providerRecs key)
                   then acc @ [index metadataRecs key] else acc)
             else acc)
       ks []"

section \<open>Applying a list of records\<close>

text \<open>The global \<^verbatim>\<open>provider\<close>. Its calls act on the provider's state \<open>'s\<close>, which the
  program never sees except through their answers.\<close>

record 's Provider =
  GetRecords :: "'s \<Rightarrow> error + DnsRecord list"
  AddRecord :: "DnsRecord \<Rightarrow> 's \<Rightarrow> error option \<times> 's"
  RemoveRecord :: "DnsRecord \<Rightarrow> 's \<Rightarrow> error option \<times> 's"
  UpdateRecord :: "DnsRecord \<Rightarrow> 's \<Rightarrow> error option \<times> 's"

text \<open>The \<^verbatim>\<open>switch *op\<close> of lines 69-86: the provider call made for one record.\<close>

definition provider_call :: "'s Provider \<Rightarrow> Op \<Rightarrow> DnsRecord \<Rightarrow> 's \<Rightarrow> error option \<times> 's" where
  "provider_call provider op v =
     (case op of Add \<Rightarrow> AddRecord provider v
               | Remove \<Rightarrow> RemoveRecord provider v
               | Update \<Rightarrow> UpdateRecord provider v)"

text \<open>The goroutine of lines 67-89, run on the records in the order in which the channel
  hands them over. It makes one provider call per record received and returns at the first
  call that fails. The result is: what the goroutine returned (the operation, the record and
  the cause that its \<^verbatim>\<open>fmt.Errorf\<close> message is made of; \<open>None\<close> when no call failed, in which
  case it goes on waiting on the channel), the records it never received, and the provider's
  state.\<close>

fun consumer ::
  "'s Provider \<Rightarrow> Op \<Rightarrow> DnsRecord list \<Rightarrow> 's
     \<Rightarrow> (Op \<times> DnsRecord \<times> error) option \<times> DnsRecord list \<times> 's" where
  "consumer provider op [] s = (None, [], s)"
| "consumer provider op (v # rest) s =
     (case provider_call provider op v s of
        (Some err, s') \<Rightarrow> (Some (op, v, err), rest, s')
      | (None, s') \<Rightarrow> consumer provider op rest s')"

text \<open>\<^verbatim>\<open>updateRecords\<close> (lines 55-92). One goroutine per record sends it on the unbuffered
  channel and then signals the wait group; \<open>deliver\<close> is the order in which the sends are
  received. \<^verbatim>\<open>wg.Wait()\<close> returns once every record has been received, and then the
  function returns \<^verbatim>\<open>nil\<close> (line 91): nothing reads what the consumer goroutine returned.
  When the consumer has returned with records still unsent, their senders stay blocked and
  \<^verbatim>\<open>wg.Wait()\<close> never returns: that is the result \<open>None\<close>. The state returned with
  \<^verbatim>\<open>nil\<close> is the provider's state once the call for the last record received, which may
  still be running when \<^verbatim>\<open>wg.Wait()\<close> returns, has finished.\<close>

definition updateRecords ::
  "'s Provider \<Rightarrow> (DnsRecord list \<Rightarrow> DnsRecord list) \<Rightarrow> DnsRecord list \<Rightarrow> Op \<Rightarrow> 's
     \<Rightarrow> (error option \<times> 's) option" where
  "updateRecords provider deliver toChange op s =
     (case consumer provider op (deliver toChange) s of
        (ret, unsent, s') \<Rightarrow> if unsent = [] then Some (None, s') else None)"

section \<open>The reconciliation pass\<close>

text \<open>The three phases end in a call of \<^verbatim>\<open>updateRecords\<close>. They take it as the parameter
  \<open>upd\<close>, so that the pass can be studied for any outcome of a phase; \<open>UpdateDnsRecords_main\<close>
  below is the pass with \<^verbatim>\<open>updateRecords\<close> itself. As for \<open>updateRecords\<close>, the result
  \<open>None\<close> is a call that does not return.\<close>

type_synonym 's applier = "DnsRecord list \<Rightarrow> Op \<Rightarrow> 's \<Rightarrow> (error option \<times> 's) option"

definition addMissingRecords ::
  "'s applier \<Rightarrow> string list \<Rightarrow> RecordSet \<Rightarrow> RecordSet \<Rightarrow> 's \<Rightarrow> (error option \<times> 's) option" where
  "addMissingRecords upd ks metadataRecs providerRecs s =
     (let recs = toAdd ks metadataRecs providerRecs
      in if length recs = 0 then Some (None, s) else upd recs Add s)"

definition removeExtraRecords ::
  "'s applier \<Rightarrow> string list \<Rightarrow> RecordSet \<Rightarrow> RecordSet \<Rightarrow> 's \<Rightarrow> (error option \<times> 's) option" where
  "removeExtraRecords upd ks metadataRecs providerRecs s =
     (let recs = toRemove ks metadataRecs providerRecs
      in if length recs = 0 then Some (None, s) else upd recs Remove s)"

definition updateExistingRecords ::
  "'s applier \<Rightarrow> string list \<Rightarrow> RecordSet \<Rightarrow> RecordSet \<Rightarrow> 's \<Rightarrow> (error option \<times> 's) option" where
  "updateExistingRecords upd ks metadataRecs providerRecs s =
     (let recs = toUpdate ks metadataRecs providerRecs
      in if length recs = 0 then Some (None, s) else upd recs Update s)"

text \<open>\<^verbatim>\<open>UpdateDnsRecords\<close> (lines 12-37). \<open>rng op m\<close> is the order in which the loop of
  phase \<open>op\<close> ranges over the map \<open>m\<close>.\<close>

definition UpdateDnsRecords ::
  "'s applier \<Rightarrow> (Op \<Rightarrow> RecordSet \<Rightarrow> string list) \<Rightarrow> (string \<Rightarrow> string) \<Rightarrow> string \<Rightarrow> string
     \<Rightarrow> 's Provider \<Rightarrow> Handler \<Rightarrow> 's \<Rightarrow> (error option \<times> 's) option" where
  "UpdateDnsRecords upd rng lower EnvironmentName RootDomainName provider m s =
     (case getMetadataDnsRecords lower EnvironmentName RootDomainName m of
        (metadataRecs, Some err) \<Rightarrow>
          Some (Some (''Error reading external dns entries: '' @ err), s)
      | (metadataRecs, None) \<Rightarrow>
          (case getProviderDnsRecords lower EnvironmentName RootDomainName (GetRecords provider s) of
             Inl err \<Rightarrow> Some (Some (''Provider error reading dns entries: '' @ err), s)
           | Inr providerRecs \<Rightarrow>
               (case addMissingRecords upd (rng Add metadataRecs) metadataRecs providerRecs s of
                  None \<Rightarrow> None
                | Some (Some err, s1) \<Rightarrow>
                    Some (Some (''Failed to add missing records: '' @ err), s1)
                | Some (None, s1) \<Rightarrow>
                    (case removeExtraRecords upd (rng Remove providerRecs)
                            metadataRecs providerRecs s1 of
                       None \<Rightarrow> None
                     | Some (Some err, s2) \<Rightarrow>
                         Some (Some (''Failed to remove extra records: '' @ err), s2)
                     | Some (None, s2) \<Rightarrow>
                         (case updateExistingRecords upd (rng Update metadataRecs)
                                 metadataRecs providerRecs s2 of
                            None \<Rightarrow> None
                          | Some (Some err, s3) \<Rightarrow>
                              Some (Some (''Failed to update existing records records: '' @ err),
                                    s3)
                          | Some (None, s3) \<Rightarrow> Some (None, s3))))))"

definition UpdateDnsRecords_main ::
  "(DnsRecord list \<Rightarrow> DnsRecord list) \<Rightarrow> (Op \<Rightarrow> RecordSet \<Rightarrow> string list) \<Rightarrow> (string \<Rightarrow> string)
     \<Rightarrow> string \<Rightarrow> string \<Rightarrow> 's Provider \<Rightarrow> Handler \<Rightarrow> 's \<Rightarrow> (error option \<times> 's) option" where
  "UpdateDnsRecords_main deliver rng lower EnvironmentName RootDomainName provider m s =
     UpdateDnsRecords (updateRecords provider deliver) rng lower EnvironmentName RootDomainName
       provider m s"

section \<open>Notions used to state the properties\<close>

text \<open>A record set is keyed by domain name when every key is the \<open>DomainName\<close> of the record
  stored under it.\<close>

definition keyed_by_name :: "RecordSet \<Rightarrow> bool" where
  "keyed_by_name rs = (\<forall>k r. rs k = Some r \<longrightarrow> DomainName r = k)"


text \<open>The sequence that the specification gives for the apply phases, written as a list of
  phases (the text put before the error of the phase, the operation, and its records) run one
  after the other: a phase with no records is a no-op, and the first phase that returns an
  error ends the pass with that error wrapped.\<close>

fun phases_in_order ::
  "'s applier \<Rightarrow> (string \<times> Op \<times> DnsRecord list) list \<Rightarrow> 's \<Rightarrow> (error option \<times> 's) option" where
  "phases_in_order upd [] s = Some (None, s)"
| "phases_in_order upd ((name, op, recs) # rest) s =
     (if recs = [] then phases_in_order upd rest s
      else (case upd recs op s of
              None \<Rightarrow> None
            | Some (Some err, s') \<Rightarrow> Some (Some (name @ err), s')
            | Some (None, s') \<Rightarrow> phases_in_order upd rest s'))"

text \<open>What \<^verbatim>\<open>getContainersDnsRecords\<close> writes for every record: its own key, type
  \<^verbatim>\<open>"A"\<close> and a TTL of 300.\<close>

definition built_ok :: "RecordSet \<Rightarrow> bool" where
  "built_ok rs = (\<forall>k r. rs k = Some r \<longrightarrow> DomainName r = k \<and> Type r = ''A'' \<and> TTL r = 300)"

text \<open>The fourth class of the partition of the domain names: the names present in both
  sets whose records have the same values as sets.\<close>

definition unchanged :: "RecordSet \<Rightarrow> RecordSet \<Rightarrow> string set" where
  "unchanged desired current =
     {k. \<exists>d c. desired k = Some d \<and> current k = Some c \<and> set (Records d) = set (Records c)}"

text \<open>The record that a list of provider records leaves under the key \<open>k\<close>: the last
  record of the list with that domain name and the given suffix.\<close>

definition kept_last :: "string \<Rightarrow> DnsRecord list \<Rightarrow> string \<Rightarrow> DnsRecord option" where
  "kept_last suffix allRecords k =
     (let matching = filter (\<lambda>r. DomainName r = k \<and> HasSuffix (DomainName r) suffix) allRecords
      in if matching = [] then None else Some (last matching))"

section \<open>Concrete inputs\<close>

text \<open>A discovery source with two instances of service \<open>web\<close> in stack \<open>stack\<close> on two
  hosts, an instance without a service name, and an instance whose host is unknown.\<close>

definition ex_containers :: "Container list" where
  "ex_containers =
     [\<lparr>Name = ''web-1'', ServiceName = ''web'', StackName = ''stack'', HostUUID = ''h1''\<rparr>,
      \<lparr>Name = ''lb-1'', ServiceName = [], StackName = ''stack'', HostUUID = ''h1''\<rparr>,
      \<lparr>Name = ''db-1'', ServiceName = ''db'', StackName = ''stack'', HostUUID = ''h9''\<rparr>,
      \<lparr>Name = ''web-2'', ServiceName = ''web'', StackName = ''stack'', HostUUID = ''h2''\<rparr>]"

definition ex_hosts :: "string \<Rightarrow> error + Host" where
  "ex_hosts uuid =
     (if uuid = ''h1'' then Inr \<lparr>AgentIP = ''10.0.0.1''\<rparr>
      else if uuid = ''h2'' then Inr \<lparr>AgentIP = ''10.0.0.2''\<rparr>
      else Inl ''host not found'')"

definition ex_handler :: Handler where
  "ex_handler = \<lparr>GetContainers = Inr ex_containers, GetHost = ex_hosts\<rparr>"

definition ex_handler_down :: Handler where
  "ex_handler_down = \<lparr>GetContainers = Inl ''connection refused'', GetHost = ex_hosts\<rparr>"

definition rec_A :: "string \<Rightarrow> string list \<Rightarrow> DnsRecord" where
  "rec_A name vals = \<lparr>DomainName = name, Records = vals, Type = ''A'', TTL = 300\<rparr>"

text \<open>A desired and a current record set: \<open>new\<close> is missing at the provider, \<open>old\<close> is
  extra there, \<open>web\<close> has other values, and \<open>api\<close> has the same values in another order;
  with one order of enumeration for each.\<close>

definition ex_desired_set :: RecordSet where
  "ex_desired_set =
     [''web.stack.env.example.com'' \<mapsto> rec_A ''web.stack.env.example.com'' [''10.0.0.1''],
      ''new.stack.env.example.com'' \<mapsto> rec_A ''new.stack.env.example.com'' [''10.0.0.3''],
      ''api.stack.env.example.com'' \<mapsto>
         rec_A ''api.stack.env.example.com'' [''10.0.0.4'', ''10.0.0.5'']]"

definition ex_current_set :: RecordSet where
  "ex_current_set =
     [''web.stack.env.example.com'' \<mapsto> rec_A ''web.stack.env.example.com'' [''10.0.0.2''],
      ''old.stack.env.example.com'' \<mapsto> rec_A ''old.stack.env.example.com'' [''10.0.0.9''],
      ''api.stack.env.example.com'' \<mapsto>
         rec_A ''api.stack.env.example.com'' [''10.0.0.5'', ''10.0.0.4'']]"

definition ex_desired_keys :: "string list" where
  "ex_desired_keys =
     [''new.stack.env.example.com'', ''api.stack.env.example.com'', ''web.stack.env.example.com'']"

definition ex_current_keys :: "string list" where
  "ex_current_keys =
     [''api.stack.env.example.com'', ''web.stack.env.example.com'', ''old.stack.env.example.com'']"

text \<open>A provider that records the calls made on it and fails for the listed domain names;
  a discovery source and a provider answer for a whole pass, with an applier that records the
  phases it is called for and fails for one operation, and an order of enumeration of the
  maps.\<close>

definition ex_provider_records :: "DnsRecord list" where
  "ex_provider_records =
     [rec_A ''old.stack.env.example.com'' [''10.0.0.9''],
      rec_A ''web.stack.env.example.com'' [''10.0.0.1''],
      rec_A ''www.example.org'' [''10.1.1.1'']]"

definition ex_call ::
  "string list \<Rightarrow> Op \<Rightarrow> DnsRecord \<Rightarrow> (Op \<times> DnsRecord) list
     \<Rightarrow> error option \<times> (Op \<times> DnsRecord) list" where
  "ex_call failing op v calls =
     (if DomainName v \<in> set failing then Some ''quota exceeded'' else None, calls @ [(op, v)])"

definition ex_provider :: "string list \<Rightarrow> (Op \<times> DnsRecord) list Provider" where
  "ex_provider failing =
     \<lparr>GetRecords = (\<lambda>calls. Inr ex_provider_records),
      AddRecord = ex_call failing Add,
      RemoveRecord = ex_call failing Remove,
      UpdateRecord = ex_call failing Update\<rparr>"

definition ex_pass_containers :: "Container list" where
  "ex_pass_containers =
     [\<lparr>Name = ''api-1'', ServiceName = ''api'', StackName = ''stack'', HostUUID = ''h1''\<rparr>,
      \<lparr>Name = ''web-1'', ServiceName = ''web'', StackName = ''stack'', HostUUID = ''h2''\<rparr>]"

definition ex_handler_pass :: Handler where
  "ex_handler_pass = \<lparr>GetContainers = Inr ex_pass_containers, GetHost = ex_hosts\<rparr>"

definition ex_reader :: "error + DnsRecord list \<Rightarrow> 's Provider" where
  "ex_reader answer =
     \<lparr>GetRecords = (\<lambda>s. answer),
      AddRecord = (\<lambda>v s. (None, s)),
      RemoveRecord = (\<lambda>v s. (None, s)),
      UpdateRecord = (\<lambda>v s. (None, s))\<rparr>"

definition ex_upd :: "Op option \<Rightarrow> (Op \<times> DnsRecord list) list applier" where
  "ex_upd failing recs op phases =
     Some (if failing = Some op then Some ''boom'' else None, phases @ [(op, recs)])"

definition ex_rng :: "Op \<Rightarrow> RecordSet \<Rightarrow> string list" where
  "ex_rng op rs =
     filter (\<lambda>k. rs k \<noteq> None)
       [''api.stack.env.example.com'', ''old.stack.env.example.com'',
        ''web.stack.env.example.com'']"

definition ex_pass_desired :: RecordSet where
  "ex_pass_desired =
     [''api.stack.env.example.com'' \<mapsto> rec_A ''api.stack.env.example.com'' [''10.0.0.1''],
      ''web.stack.env.example.com'' \<mapsto> rec_A ''web.stack.env.example.com'' [''10.0.0.2'']]"

definition ex_pass_current :: RecordSet where
  "ex_pass_current =
     [''old.stack.env.example.com'' \<mapsto> rec_A ''old.stack.env.example.com'' [''10.0.0.9''],
      ''web.stack.env.example.com'' \<mapsto> rec_A ''web.stack.env.example.com'' [''10.0.0.1'']]"

section \<open>The desired state\<close>

lemma addToDnsEntries_at:
  "addToDnsEntries e rs (DomainName e) =
     Some \<lparr>DomainName = DomainName e, Records = Records e, Type = ''A'', TTL = 300\<rparr>"
  by (simp add: addToDnsEntries_def index_def zero_DnsRecord_def Let_def)

lemma addToDnsEntries_other:
  "k \<noteq> DomainName e \<Longrightarrow> addToDnsEntries e rs k = rs k"
  by (simp add: addToDnsEntries_def Let_def)

lemma addToDnsEntries_eq:
  "addToDnsEntries e rs =
     rs(DomainName e \<mapsto> \<lparr>DomainName = DomainName e, Records = Records e, Type = ''A'', TTL = 300\<rparr>)"
  by (rule ext) (simp add: addToDnsEntries_at addToDnsEntries_other)

lemma built_ok_empty: "built_ok Map.empty"
  by (simp add: built_ok_def)

lemma built_ok_add: "built_ok rs \<Longrightarrow> built_ok (addToDnsEntries e rs)"
  by (auto simp: built_ok_def addToDnsEntries_eq)

lemma built_ok_step:
  "built_ok d \<Longrightarrow> built_ok (container_step lower env root m sn st c d)"
  by (auto simp: container_step_def Let_def built_ok_add split: sum.splits)

lemma built_ok_fold:
  "built_ok d \<Longrightarrow> built_ok (fold (container_step lower env root m sn st) cs d)"
  by (induction cs arbitrary: d) (simp_all add: built_ok_step)

lemma built_ok_metadata: "built_ok (fst (getMetadataDnsRecords lower env root m))"
proof (cases "GetContainers m")
  case (Inl err)
  then show ?thesis
    by (simp add: getMetadataDnsRecords_def getContainersDnsRecords_def built_ok_empty)
next
  case (Inr cs)
  then show ?thesis
    by (simp add: getMetadataDnsRecords_def getContainersDnsRecords_def built_ok_fold
        built_ok_empty)
qed

lemma keyed_empty: "keyed_by_name Map.empty"
  by (simp add: keyed_by_name_def)

lemma keyed_upd: "keyed_by_name rs \<Longrightarrow> keyed_by_name (rs(DomainName v \<mapsto> v))"
  by (simp add: keyed_by_name_def)

lemma provider_fold_keyed:
  "keyed_by_name acc \<Longrightarrow>
   keyed_by_name
     (fold (\<lambda>v ours. if HasSuffix (DomainName v) suf then ours(DomainName v \<mapsto> v) else ours)
        allRecords acc)"
proof (induction allRecords arbitrary: acc)
  case Nil
  then show ?case by simp
next
  case (Cons v allRecords)
  have "keyed_by_name (if HasSuffix (DomainName v) suf then acc(DomainName v \<mapsto> v) else acc)"
    using Cons.prems by (simp add: keyed_upd)
  from Cons.IH [OF this] show ?case by simp
qed




lemma lower_web: "ToLower_ascii ''web.stack.env.example.com'' = ''web.stack.env.example.com''"
  by code_simp

lemma lower_suffix: "ToLower_ascii ''env.example.com'' = ''env.example.com''"
  by code_simp

lemma ex_desired:
  "fst (getMetadataDnsRecords ToLower_ascii ''env'' ''example.com'' ex_handler) =
     [''web.stack.env.example.com'' \<mapsto> rec_A ''web.stack.env.example.com'' [''10.0.0.2'']]"
  by (simp add: getMetadataDnsRecords_def getContainersDnsRecords_def ex_handler_def
      ex_containers_def ex_hosts_def container_step_def addToDnsEntries_eq lower_web rec_A_def
      Let_def)

text \<open>C1. Two instances that resolve to the same domain name should give a record with the
  IPs of both, in first-seen order. In \<^verbatim>\<open>addToDnsEntries\<close> the two branches are the wrong way
  round: whatever the map holds, the record stored for the domain name has the values of the
  new entry alone; so for the two \<open>web\<close> instances on 10.0.0.1 and 10.0.0.2 the desired
  record holds 10.0.0.2 only.\<close>

theorem C1_addToDnsEntries_keeps_last_only:
  "Records (index (addToDnsEntries e rs) (DomainName e)) = Records e \<and>
   fst (getMetadataDnsRecords ToLower_ascii ''env'' ''example.com'' ex_handler)
       ''web.stack.env.example.com'' =
     Some \<lparr>DomainName = ''web.stack.env.example.com'', Records = [''10.0.0.2''],
            Type = ''A'', TTL = 300\<rparr>"
  by (simp add: index_def addToDnsEntries_at ex_desired rec_A_def)



text \<open>C9. In the desired set built from the discovery source and in the current set read
  from the provider, every key is the domain name of the record stored under it.\<close>

theorem C9_keys_are_domain_names:
  "keyed_by_name (fst (getMetadataDnsRecords lower env root m)) \<and>
   (getProviderDnsRecords lower env root answer = Inr providerRecs \<longrightarrow>
      keyed_by_name providerRecs)"
proof
  show "keyed_by_name (fst (getMetadataDnsRecords lower env root m))"
    using built_ok_metadata [of lower env root m] by (simp add: built_ok_def keyed_by_name_def)
  show "getProviderDnsRecords lower env root answer = Inr providerRecs \<longrightarrow>
        keyed_by_name providerRecs"
  proof (cases answer)
    case (Inl err)
    then show ?thesis by (simp add: getProviderDnsRecords_def)
  next
    case (Inr allRecords)
    then show ?thesis
      using provider_fold_keyed [OF keyed_empty]
      by (auto simp: getProviderDnsRecords_def Let_def)
  qed
qed

theorem C9_keys_are_domain_names_witness:
  "fst (getMetadataDnsRecords ToLower_ascii ''env'' ''example.com'' ex_handler)
      ''web.stack.env.example.com'' \<noteq> None \<and>
   keyed_by_name (fst (getMetadataDnsRecords ToLower_ascii ''env'' ''example.com'' ex_handler)) \<and>
   getProviderDnsRecords ToLower_ascii ''env'' ''example.com''
      (Inr [rec_A ''old.stack.env.example.com'' [''10.0.0.9''], rec_A ''www.example.org'' [''10.1.1.1'']])
    = Inr [''old.stack.env.example.com'' \<mapsto> rec_A ''old.stack.env.example.com'' [''10.0.0.9'']] \<and>
   keyed_by_name [''old.stack.env.example.com'' \<mapsto> rec_A ''old.stack.env.example.com'' [''10.0.0.9'']]"
proof -
  have cur: "getProviderDnsRecords ToLower_ascii ''env'' ''example.com''
      (Inr [rec_A ''old.stack.env.example.com'' [''10.0.0.9''], rec_A ''www.example.org'' [''10.1.1.1'']])
    = Inr [''old.stack.env.example.com'' \<mapsto> rec_A ''old.stack.env.example.com'' [''10.0.0.9'']]"
    by (simp add: getProviderDnsRecords_def lower_suffix HasSuffix_def rec_A_def Let_def)
  show ?thesis
    using C9_keys_are_domain_names
            [where lower = ToLower_ascii and env = "''env''" and root = "''example.com''"
               and m = ex_handler
               and answer = "Inr [rec_A ''old.stack.env.example.com'' [''10.0.0.9''],
                                  rec_A ''www.example.org'' [''10.1.1.1'']]"
               and providerRecs = "[''old.stack.env.example.com'' \<mapsto>
                                      rec_A ''old.stack.env.example.com'' [''10.0.0.9'']]"]
          cur
    by (simp add: ex_desired)
qed

text \<open>C10. Every record of the desired set has type \<^verbatim>\<open>"A"\<close> and TTL 300, whatever the
  instances are; and the record that \<^verbatim>\<open>addToDnsEntries\<close> stores has these constants whatever
  the type and TTL of the entry it is given.\<close>

theorem C10_desired_type_and_ttl:
  "(fst (getMetadataDnsRecords lower env root m) k = Some r \<longrightarrow> Type r = ''A'' \<and> TTL r = 300) \<and>
   (\<exists>r'. addToDnsEntries e rs (DomainName e) = Some r' \<and> Type r' = ''A'' \<and> TTL r' = 300)"
  using built_ok_metadata [of lower env root m]
  by (simp add: built_ok_def addToDnsEntries_at)

theorem C10_desired_type_and_ttl_witness:
  "fst (getMetadataDnsRecords ToLower_ascii ''env'' ''example.com'' ex_handler)
      ''web.stack.env.example.com'' = Some (rec_A ''web.stack.env.example.com'' [''10.0.0.2'']) \<and>
   Type (rec_A ''web.stack.env.example.com'' [''10.0.0.2'']) = ''A'' \<and>
   TTL (rec_A ''web.stack.env.example.com'' [''10.0.0.2'']) = 300 \<and>
   (\<exists>r'. addToDnsEntries \<lparr>DomainName = ''x.env.example.com'', Records = [''10.0.0.3''],
                            Type = ''CNAME'', TTL = 60\<rparr> Map.empty ''x.env.example.com'' = Some r' \<and>
         Type r' = ''A'' \<and> TTL r' = 300)"
proof -
  have at: "fst (getMetadataDnsRecords ToLower_ascii ''env'' ''example.com'' ex_handler)
      ''web.stack.env.example.com'' = Some (rec_A ''web.stack.env.example.com'' [''10.0.0.2''])"
    by (simp add: ex_desired)
  show ?thesis
    using C10_desired_type_and_ttl
            [where lower = ToLower_ascii and env = "''env''" and root = "''example.com''"
               and m = ex_handler and k = "''web.stack.env.example.com''"
               and r = "rec_A ''web.stack.env.example.com'' [''10.0.0.2'']"
               and e = "\<lparr>DomainName = ''x.env.example.com'', Records = [''10.0.0.3''],
                            Type = ''CNAME'', TTL = 60\<rparr>" and rs = Map.empty]
          at
    by simp
qed

section \<open>The three differences: properties\<close>

lemma value_set_eq: "value_set records = set records"
proof -
  have "fold (\<lambda>s R. insert s R) records R = set records \<union> R" for R
    by (induction records arbitrary: R) auto
  then show ?thesis by (simp add: value_set_def)
qed

lemma update_iff: "update a b \<longleftrightarrow> set (Records a) \<noteq> set (Records b)"
  unfolding update_def value_set_eq Let_def by auto

lemma fold_collect:
  "fold (\<lambda>key acc. if P key then acc @ [f key] else acc) ks acc0 = acc0 @ map f (filter P ks)"
  by (induction ks arbitrary: acc0) simp_all

lemma toAdd_eq:
  "toAdd ks metadataRecs providerRecs =
     map (index metadataRecs) (filter (\<lambda>key. providerRecs key = None) ks)"
  unfolding toAdd_def by (simp add: fold_collect)

lemma toRemove_eq:
  "toRemove ks metadataRecs providerRecs =
     map (index providerRecs) (filter (\<lambda>key. metadataRecs key = None) ks)"
  unfolding toRemove_def by (simp add: fold_collect)

lemma toUpdate_eq:
  "toUpdate ks metadataRecs providerRecs =
     map (index metadataRecs)
       (filter (\<lambda>key. providerRecs key \<noteq> None \<and>
                       update (index metadataRecs key) (index providerRecs key)) ks)"
proof -
  have "toUpdate ks metadataRecs providerRecs =
     fold (\<lambda>key acc. if providerRecs key \<noteq> None \<and>
                       update (index metadataRecs key) (index providerRecs key)
                     then acc @ [index metadataRecs key] else acc) ks []"
    unfolding toUpdate_def by (rule arg_cong [where f = "\<lambda>g. fold g ks []"]) (auto intro!: ext)
  then show ?thesis by (simp add: fold_collect)
qed

lemma index_Some: "rs k = Some r \<Longrightarrow> index rs k = r"
  by (simp add: index_def)

lemma keyed_name: "keyed_by_name rs \<Longrightarrow> rs k = Some r \<Longrightarrow> DomainName r = k"
  by (simp add: keyed_by_name_def)

lemma names_of_selection:
  assumes "keyed_by_name rs" and "set ks \<subseteq> dom rs"
  shows "map DomainName (map (index rs) (filter P ks)) = filter P ks"
proof -
  have "DomainName (index rs k) = k" if "k \<in> set ks" for k
  proof -
    from that assms(2) obtain r where "rs k = Some r" by auto
    with assms(1) show ?thesis by (simp add: index_Some keyed_name)
  qed
  then have "map (\<lambda>k. DomainName (index rs k)) (filter P ks) = map (\<lambda>k. k) (filter P ks)"
    by (intro map_cong) auto
  then show ?thesis by (simp add: comp_def)
qed

lemma set_selection:
  assumes "keyed_by_name rs" and "set ks = dom rs"
  shows "set (map (index rs) (filter P ks)) = {r \<in> ran rs. P (DomainName r)}"
proof (intro set_eqI iffI)
  fix r assume "r \<in> set (map (index rs) (filter P ks))"
  then obtain k where k: "k \<in> set ks" "P k" "r = index rs k" by auto
  with assms(2) obtain r' where r': "rs k = Some r'" by auto
  with k have "r = r'" by (simp add: index_Some)
  with r' k assms(1) show "r \<in> {r \<in> ran rs. P (DomainName r)}"
    by (auto simp: ran_def dest: keyed_name)
next
  fix r assume "r \<in> {r \<in> ran rs. P (DomainName r)}"
  then obtain k where k: "rs k = Some r" and P: "P (DomainName r)" by (auto simp: ran_def)
  from k assms(1) have "DomainName r = k" by (rule keyed_name [rotated])
  with k P assms(2) have "k \<in> set (filter P ks)" by auto
  moreover from k have "index rs k = r" by (rule index_Some)
  ultimately show "r \<in> set (map (index rs) (filter P ks))" by force
qed

lemma enumerates_set: "enumerates ks rs \<Longrightarrow> set ks = dom rs"
  by (simp add: enumerates_def)

lemma enumerates_distinct: "enumerates ks rs \<Longrightarrow> distinct ks"
  by (simp add: enumerates_def)

lemma names_toAdd:
  "keyed_by_name desired \<Longrightarrow> enumerates ks desired \<Longrightarrow>
   map DomainName (toAdd ks desired current) = filter (\<lambda>k. current k = None) ks"
  by (simp only: toAdd_eq names_of_selection enumerates_set subset_refl)

lemma names_toRemove:
  "keyed_by_name current \<Longrightarrow> enumerates ks current \<Longrightarrow>
   map DomainName (toRemove ks desired current) = filter (\<lambda>k. desired k = None) ks"
  by (simp only: toRemove_eq names_of_selection enumerates_set subset_refl)

lemma names_toUpdate:
  "keyed_by_name desired \<Longrightarrow> enumerates ks desired \<Longrightarrow>
   map DomainName (toUpdate ks desired current) =
     filter (\<lambda>k. current k \<noteq> None \<and> update (index desired k) (index current k)) ks"
  by (simp only: toUpdate_eq names_of_selection enumerates_set subset_refl)

lemma set_toAdd:
  "keyed_by_name desired \<Longrightarrow> enumerates ks desired \<Longrightarrow>
   set (toAdd ks desired current) = {r \<in> ran desired. current (DomainName r) = None}"
  by (simp only: toAdd_eq set_selection enumerates_set)

lemma set_toRemove:
  "keyed_by_name current \<Longrightarrow> enumerates ks current \<Longrightarrow>
   set (toRemove ks desired current) = {r \<in> ran current. desired (DomainName r) = None}"
  by (simp only: toRemove_eq set_selection enumerates_set)

lemma set_toUpdate:
  assumes "keyed_by_name desired" and "enumerates ks desired"
  shows "set (toUpdate ks desired current) =
     {r \<in> ran desired. \<exists>c. current (DomainName r) = Some c \<and> set (Records r) \<noteq> set (Records c)}"
proof -
  have "set (toUpdate ks desired current) =
     {r \<in> ran desired. current (DomainName r) \<noteq> None \<and>
        update (index desired (DomainName r)) (index current (DomainName r))}"
    using assms by (simp only: toUpdate_eq set_selection enumerates_set)
  also have "\<dots> = {r \<in> ran desired. \<exists>c. current (DomainName r) = Some c \<and>
                       set (Records r) \<noteq> set (Records c)}"
  proof (intro Collect_cong conj_cong refl)
    fix r assume "r \<in> ran desired"
    then obtain k where k: "desired k = Some r" by (auto simp: ran_def)
    with assms(1) have "DomainName r = k" by (rule keyed_name)
    with k have "index desired (DomainName r) = r" by (simp add: index_Some)
    then show "(current (DomainName r) \<noteq> None \<and>
           update (index desired (DomainName r)) (index current (DomainName r))) =
          (\<exists>c. current (DomainName r) = Some c \<and> set (Records r) \<noteq> set (Records c))"
      by (cases "current (DomainName r)") (simp_all add: index_Some update_iff)
  qed
  finally show ?thesis .
qed

text \<open>C3. For record sets keyed by domain name, and whatever the order in which the loops
  range over the maps: \<open>toAdd\<close> holds exactly the desired records whose domain name is
  absent from the current set, \<open>toRemove\<close> exactly the current records whose domain name is
  absent from the desired set, and \<open>toUpdate\<close> exactly the desired records whose domain name
  is in both and whose values differ, as a set, from those of the current record; each
  such record is listed once. The test for an update does not look at type or TTL.\<close>

theorem C3_diff_lists:
  assumes "keyed_by_name desired" and "keyed_by_name current"
    and "enumerates ksA desired" and "enumerates ksR current" and "enumerates ksU desired"
  shows "set (toAdd ksA desired current) = {r \<in> ran desired. current (DomainName r) = None} \<and>
         distinct (map DomainName (toAdd ksA desired current)) \<and>
         set (toRemove ksR desired current) = {r \<in> ran current. desired (DomainName r) = None} \<and>
         distinct (map DomainName (toRemove ksR desired current)) \<and>
         set (toUpdate ksU desired current) =
           {r \<in> ran desired. \<exists>c. current (DomainName r) = Some c \<and>
                                  set (Records r) \<noteq> set (Records c)} \<and>
         distinct (map DomainName (toUpdate ksU desired current)) \<and>
         update (d\<lparr>Type := ty, TTL := n\<rparr>) (c\<lparr>Type := ty', TTL := n'\<rparr>) = update d c"
proof (intro conjI)
  show "set (toAdd ksA desired current) = {r \<in> ran desired. current (DomainName r) = None}"
    using assms(1,3) by (rule set_toAdd)
  show "distinct (map DomainName (toAdd ksA desired current))"
    using assms(1,3) by (simp add: names_toAdd enumerates_distinct)
  show "set (toRemove ksR desired current) = {r \<in> ran current. desired (DomainName r) = None}"
    using assms(2,4) by (rule set_toRemove)
  show "distinct (map DomainName (toRemove ksR desired current))"
    using assms(2,4) by (simp add: names_toRemove enumerates_distinct)
  show "set (toUpdate ksU desired current) =
           {r \<in> ran desired. \<exists>c. current (DomainName r) = Some c \<and>
                                  set (Records r) \<noteq> set (Records c)}"
    using assms(1,5) by (rule set_toUpdate)
  show "distinct (map DomainName (toUpdate ksU desired current))"
    using assms(1,5) by (simp add: names_toUpdate enumerates_distinct)
  show "update (d\<lparr>Type := ty, TTL := n\<rparr>) (c\<lparr>Type := ty', TTL := n'\<rparr>) = update d c"
    by (simp add: update_iff)
qed

text \<open>C6. For record sets keyed by domain name, the domain names of \<open>toAdd\<close>, \<open>toRemove\<close>,
  \<open>toUpdate\<close> and the unchanged names are pairwise disjoint, and together they are the
  domain names of the desired and the current set: every name is in exactly one class.\<close>

theorem C6_diff_partition:
  assumes "keyed_by_name desired" and "keyed_by_name current"
    and "enumerates ksA desired" and "enumerates ksR current" and "enumerates ksU desired"
  shows "(let A = DomainName ` set (toAdd ksA desired current);
              R = DomainName ` set (toRemove ksR desired current);
              U = DomainName ` set (toUpdate ksU desired current);
              N = unchanged desired current
          in A \<inter> R = {} \<and> A \<inter> U = {} \<and> R \<inter> U = {} \<and>
             N \<inter> A = {} \<and> N \<inter> R = {} \<and> N \<inter> U = {} \<and>
             A \<union> R \<union> U \<union> N = dom desired \<union> dom current)"
proof -
  have A: "DomainName ` set (toAdd ksA desired current) = {k \<in> dom desired. current k = None}"
    unfolding set_map [symmetric] names_toAdd [OF assms(1,3)]
    using enumerates_set [OF assms(3)] by auto
  have R: "DomainName ` set (toRemove ksR desired current) = {k \<in> dom current. desired k = None}"
    unfolding set_map [symmetric] names_toRemove [OF assms(2,4)]
    using enumerates_set [OF assms(4)] by auto
  have U: "DomainName ` set (toUpdate ksU desired current) =
      {k \<in> dom desired. current k \<noteq> None \<and> update (index desired k) (index current k)}"
    unfolding set_map [symmetric] names_toUpdate [OF assms(1,5)]
    using enumerates_set [OF assms(5)] by auto
  have N: "unchanged desired current =
      {k \<in> dom desired. current k \<noteq> None \<and> \<not> update (index desired k) (index current k)}"
    by (auto simp: unchanged_def update_iff index_Some)
  show ?thesis
    unfolding Let_def A R U N by auto
qed

text \<open>C7. The difference between a record set and itself is three empty lists.\<close>

theorem C7_diff_idempotent:
  assumes "enumerates ksA S" and "enumerates ksR S"
  shows "toAdd ksA S S = [] \<and> toRemove ksR S S = [] \<and> toUpdate ksU S S = []"
proof (intro conjI)
  have "filter (\<lambda>key. S key = None) ksA = []"
    using enumerates_set [OF assms(1)] by (auto simp: filter_empty_conv)
  then show "toAdd ksA S S = []" by (simp add: toAdd_eq)
  have "filter (\<lambda>key. S key = None) ksR = []"
    using enumerates_set [OF assms(2)] by (auto simp: filter_empty_conv)
  then show "toRemove ksR S S = []" by (simp add: toRemove_eq)
  show "toUpdate ksU S S = []"
    by (simp add: toUpdate_eq update_iff)
qed

lemma ex_keyed: "keyed_by_name ex_desired_set" "keyed_by_name ex_current_set"
  by (simp_all add: keyed_by_name_def ex_desired_set_def ex_current_set_def rec_A_def)

lemma ex_enumerates:
  "enumerates ex_desired_keys ex_desired_set" "enumerates ex_current_keys ex_current_set"
  by (auto simp: enumerates_def ex_desired_keys_def ex_current_keys_def ex_desired_set_def
      ex_current_set_def)

lemma ex_toAdd:
  "toAdd ex_desired_keys ex_desired_set ex_current_set =
     [rec_A ''new.stack.env.example.com'' [''10.0.0.3'']]"
  by (simp add: toAdd_def ex_desired_keys_def ex_desired_set_def ex_current_set_def index_def)

lemma ex_toRemove:
  "toRemove ex_current_keys ex_desired_set ex_current_set =
     [rec_A ''old.stack.env.example.com'' [''10.0.0.9'']]"
  by (simp add: toRemove_def ex_current_keys_def ex_desired_set_def ex_current_set_def index_def)

lemma ex_toUpdate:
  "toUpdate ex_desired_keys ex_desired_set ex_current_set =
     [rec_A ''web.stack.env.example.com'' [''10.0.0.1'']]"
  by (simp add: toUpdate_eq update_iff ex_desired_keys_def ex_desired_set_def ex_current_set_def
      index_def rec_A_def insert_commute)

theorem C3_diff_lists_witness:
  "keyed_by_name ex_desired_set \<and> keyed_by_name ex_current_set \<and>
   enumerates ex_desired_keys ex_desired_set \<and> enumerates ex_current_keys ex_current_set \<and>
   toAdd ex_desired_keys ex_desired_set ex_current_set =
     [rec_A ''new.stack.env.example.com'' [''10.0.0.3'']] \<and>
   {r \<in> ran ex_desired_set. ex_current_set (DomainName r) = None} =
     {rec_A ''new.stack.env.example.com'' [''10.0.0.3'']} \<and>
   toRemove ex_current_keys ex_desired_set ex_current_set =
     [rec_A ''old.stack.env.example.com'' [''10.0.0.9'']] \<and>
   {r \<in> ran ex_current_set. ex_desired_set (DomainName r) = None} =
     {rec_A ''old.stack.env.example.com'' [''10.0.0.9'']} \<and>
   toUpdate ex_desired_keys ex_desired_set ex_current_set =
     [rec_A ''web.stack.env.example.com'' [''10.0.0.1'']] \<and>
   {r \<in> ran ex_desired_set. \<exists>c. ex_current_set (DomainName r) = Some c \<and>
                                   set (Records r) \<noteq> set (Records c)} =
     {rec_A ''web.stack.env.example.com'' [''10.0.0.1'']}"
  using C3_diff_lists [OF ex_keyed ex_enumerates(1) ex_enumerates(2) ex_enumerates(1)]
    ex_keyed ex_enumerates
  by (simp add: ex_toAdd ex_toRemove ex_toUpdate)

theorem C6_diff_partition_witness:
  "keyed_by_name ex_desired_set \<and> keyed_by_name ex_current_set \<and>
   enumerates ex_desired_keys ex_desired_set \<and> enumerates ex_current_keys ex_current_set \<and>
   DomainName ` set (toAdd ex_desired_keys ex_desired_set ex_current_set) =
     {''new.stack.env.example.com''} \<and>
   DomainName ` set (toRemove ex_current_keys ex_desired_set ex_current_set) =
     {''old.stack.env.example.com''} \<and>
   DomainName ` set (toUpdate ex_desired_keys ex_desired_set ex_current_set) =
     {''web.stack.env.example.com''} \<and>
   unchanged ex_desired_set ex_current_set = {''api.stack.env.example.com''} \<and>
   dom ex_desired_set \<union> dom ex_current_set =
     {''new.stack.env.example.com''} \<union> {''old.stack.env.example.com''} \<union>
     {''web.stack.env.example.com''} \<union> {''api.stack.env.example.com''}"
proof -
  have names: "DomainName ` set (toAdd ex_desired_keys ex_desired_set ex_current_set) =
     {''new.stack.env.example.com''}"
    "DomainName ` set (toRemove ex_current_keys ex_desired_set ex_current_set) =
     {''old.stack.env.example.com''}"
    "DomainName ` set (toUpdate ex_desired_keys ex_desired_set ex_current_set) =
     {''web.stack.env.example.com''}"
    by (simp_all add: ex_toAdd ex_toRemove ex_toUpdate rec_A_def)
  have un: "unchanged ex_desired_set ex_current_set = {''api.stack.env.example.com''}"
    by (auto simp: unchanged_def ex_desired_set_def ex_current_set_def rec_A_def
        split: if_splits)
  have doms: "dom ex_desired_set \<union> dom ex_current_set =
     {''new.stack.env.example.com''} \<union> {''old.stack.env.example.com''} \<union>
     {''web.stack.env.example.com''} \<union> {''api.stack.env.example.com''}"
    by (auto simp: ex_desired_set_def ex_current_set_def)
  show ?thesis
    using C6_diff_partition [OF ex_keyed ex_enumerates(1) ex_enumerates(2) ex_enumerates(1)]
      ex_keyed ex_enumerates names un doms
    by simp
qed

theorem C7_diff_idempotent_witness:
  "enumerates ex_desired_keys ex_desired_set \<and>
   toAdd ex_desired_keys ex_desired_set ex_desired_set = [] \<and>
   toRemove ex_desired_keys ex_desired_set ex_desired_set = [] \<and>
   toUpdate ex_desired_keys ex_desired_set ex_desired_set = []"
  using C7_diff_idempotent [OF ex_enumerates(1) ex_enumerates(1), of ex_desired_keys] ex_enumerates(1)
  by simp

section \<open>The provider's state, the applier and the pass: properties\<close>

lemma provider_fold_lookup:
  "fold (\<lambda>v ours. if HasSuffix (DomainName v) suf then ours(DomainName v \<mapsto> v) else ours)
        allRecords acc k =
   (case kept_last suf allRecords k of None \<Rightarrow> acc k | Some r \<Rightarrow> Some r)"
proof (induction allRecords arbitrary: acc)
  case Nil
  then show ?case by (simp add: kept_last_def)
next
  case (Cons v allRecords)
  show ?case
    unfolding fold_simps Cons.IH
    by (simp add: kept_last_def Let_def split: option.splits)
qed

text \<open>C4 (as amended). The provider's records are filtered by the suffix
  \<open>lower (env @ ''.'' @ root)\<close>: the lower-cased join of environment name and root domain,
  with no dot in front, compared with the end of the domain name as it is (the name is not
  lower-cased). A failure of the provider is returned as it is. Otherwise the result is
  keyed by domain name, its keys are the domain names of the records with that suffix, and
  under each key is the last record of the list with that name.\<close>

theorem C4_provider_filter:
  "(getRecords = Inl err \<longrightarrow> getProviderDnsRecords lower env root getRecords = Inl err) \<and>
   (getRecords = Inr allRecords \<longrightarrow>
      (\<exists>ours. getProviderDnsRecords lower env root getRecords = Inr ours \<and>
         (\<forall>k. ours k = kept_last (lower (env @ ''.'' @ root)) allRecords k) \<and>
         dom ours = {DomainName r | r. r \<in> set allRecords \<and>
                       HasSuffix (DomainName r) (lower (env @ ''.'' @ root))} \<and>
         ran ours \<subseteq> set allRecords \<and> keyed_by_name ours))"
proof (intro conjI impI)
  assume "getRecords = Inl err"
  then show "getProviderDnsRecords lower env root getRecords = Inl err"
    by (simp add: getProviderDnsRecords_def)
next
  assume all: "getRecords = Inr allRecords"
  define suf where "suf = lower (env @ ''.'' @ root)"
  define ours where "ours =
    fold (\<lambda>v ours. if HasSuffix (DomainName v) suf then ours(DomainName v \<mapsto> v) else ours)
      allRecords Map.empty"
  have res: "getProviderDnsRecords lower env root getRecords = Inr ours"
    using all by (simp add: getProviderDnsRecords_def Let_def ours_def suf_def)
  have look: "ours k = kept_last suf allRecords k" for k
    unfolding ours_def provider_fold_lookup by (simp split: option.splits)
  have mem: "r \<in> set allRecords \<and> DomainName r = k \<and> HasSuffix (DomainName r) suf"
    if "ours k = Some r" for k r
  proof -
    let ?matching = "filter (\<lambda>r. DomainName r = k \<and> HasSuffix (DomainName r) suf) allRecords"
    from that have "kept_last suf allRecords k = Some r" by (simp only: look)
    then have ne: "?matching \<noteq> []" and r: "r = last ?matching"
      unfolding kept_last_def Let_def by (simp_all split: if_splits)
    from ne have "last ?matching \<in> set ?matching" by (rule last_in_set)
    with r show ?thesis by auto
  qed
  have dom: "dom ours = {DomainName r | r. r \<in> set allRecords \<and> HasSuffix (DomainName r) suf}"
  proof (intro set_eqI iffI)
    fix k assume "k \<in> dom ours"
    then obtain r where "ours k = Some r" by auto
    from mem [OF this]
    show "k \<in> {DomainName r | r. r \<in> set allRecords \<and> HasSuffix (DomainName r) suf}"
      by auto
  next
    fix k assume "k \<in> {DomainName r | r. r \<in> set allRecords \<and> HasSuffix (DomainName r) suf}"
    then obtain r where "r \<in> set allRecords" "DomainName r = k" "HasSuffix (DomainName r) suf"
      by auto
    then have "filter (\<lambda>r. DomainName r = k \<and> HasSuffix (DomainName r) suf) allRecords \<noteq> []"
      by (auto simp: filter_empty_conv)
    then have "kept_last suf allRecords k \<noteq> None"
      unfolding kept_last_def Let_def by simp
    then have "ours k \<noteq> None" by (simp add: look)
    then show "k \<in> dom ours" by (rule domIff [THEN iffD2])
  qed
  have ran: "ran ours \<subseteq> set allRecords"
  proof
    fix r assume "r \<in> ran ours"
    then obtain k where "ours k = Some r" unfolding ran_def by blast
    from mem [OF this] show "r \<in> set allRecords" by simp
  qed
  have keyed: "keyed_by_name ours"
    unfolding keyed_by_name_def using mem by blast
  from res look dom ran keyed
  show "\<exists>ours. getProviderDnsRecords lower env root getRecords = Inr ours \<and>
         (\<forall>k. ours k = kept_last (lower (env @ ''.'' @ root)) allRecords k) \<and>
         dom ours = {DomainName r | r. r \<in> set allRecords \<and>
                       HasSuffix (DomainName r) (lower (env @ ''.'' @ root))} \<and>
         ran ours \<subseteq> set allRecords \<and> keyed_by_name ours"
    unfolding suf_def by blast
qed

lemma lower_claimed_suffix: "ToLower_ascii (''.'' @ ''env'' @ ''.'' @ ''example.com'') = ''.env.example.com''"
  by code_simp

lemma lower_webenv: "ToLower_ascii ''webenv.example.com'' = ''webenv.example.com''"
  by code_simp

lemma lower_mixed: "ToLower_ascii ''Web.Stack.Env.Example.Com'' = ''web.stack.env.example.com''"
  by code_simp

text \<open>The claim as stated asks for the suffix \<open>.env.example.com\<close>, compared without regard
  to case. The record \<open>webenv.example.com\<close> has no such suffix and is kept; the record
  \<open>Web.Stack.Env.Example.Com\<close> has it and is dropped.\<close>

theorem C4_provider_filter_counterexample:
  "getProviderDnsRecords ToLower_ascii ''env'' ''example.com''
     (Inr [rec_A ''webenv.example.com'' [''10.0.0.7''],
           rec_A ''Web.Stack.Env.Example.Com'' [''10.0.0.8'']]) =
     Inr [''webenv.example.com'' \<mapsto> rec_A ''webenv.example.com'' [''10.0.0.7'']] \<and>
   \<not> HasSuffix (ToLower_ascii ''webenv.example.com'')
         (ToLower_ascii (''.'' @ ''env'' @ ''.'' @ ''example.com'')) \<and>
   HasSuffix (ToLower_ascii ''Web.Stack.Env.Example.Com'')
         (ToLower_ascii (''.'' @ ''env'' @ ''.'' @ ''example.com''))"
  unfolding lower_claimed_suffix lower_webenv lower_mixed
  by (simp add: getProviderDnsRecords_def lower_suffix HasSuffix_def rec_A_def Let_def)

lemma ex_current:
  "getProviderDnsRecords ToLower_ascii ''env'' ''example.com'' (Inr ex_provider_records) =
     Inr [''old.stack.env.example.com'' \<mapsto> rec_A ''old.stack.env.example.com'' [''10.0.0.9''],
          ''web.stack.env.example.com'' \<mapsto> rec_A ''web.stack.env.example.com'' [''10.0.0.1'']]"
  by (simp add: getProviderDnsRecords_def lower_suffix HasSuffix_def rec_A_def Let_def
      ex_provider_records_def)

theorem C4_provider_filter_witness:
  "getProviderDnsRecords ToLower_ascii ''env'' ''example.com'' (Inl ''timeout'') = Inl ''timeout'' \<and>
   (\<exists>ours. getProviderDnsRecords ToLower_ascii ''env'' ''example.com'' (Inr ex_provider_records)
             = Inr ours \<and>
      dom ours = {''old.stack.env.example.com'', ''web.stack.env.example.com''} \<and>
      dom ours = {DomainName r | r. r \<in> set ex_provider_records \<and>
                    HasSuffix (DomainName r) (ToLower_ascii (''env'' @ ''.'' @ ''example.com''))} \<and>
      ran ours \<subseteq> set ex_provider_records \<and> keyed_by_name ours)"
proof -
  have d: "dom [''old.stack.env.example.com'' \<mapsto> rec_A ''old.stack.env.example.com'' [''10.0.0.9''],
          ''web.stack.env.example.com'' \<mapsto> rec_A ''web.stack.env.example.com'' [''10.0.0.1'']]
     = {''old.stack.env.example.com'', ''web.stack.env.example.com''}"
    by auto
  show ?thesis
    using C4_provider_filter [where getRecords = "Inl ''timeout''" and err = "''timeout''"
                and lower = ToLower_ascii and env = "''env''" and root = "''example.com''"]
          C4_provider_filter [where getRecords = "Inr ex_provider_records" and allRecords = ex_provider_records
                and lower = ToLower_ascii and env = "''env''" and root = "''example.com''"]
    unfolding ex_current using d by auto
qed

lemma updateRecords_nil_or_blocked:
  "updateRecords provider deliver toChange op s \<noteq> Some (Some err, s')"
  by (simp add: updateRecords_def split: prod.splits)

text \<open>C2. When provider calls fail, \<^verbatim>\<open>updateRecords\<close> should return an error that names
  the failed records. It never returns an error: whatever the provider, the order of
  delivery, the records and the operation, it returns \<^verbatim>\<open>nil\<close> or does not return. With a
  provider that refuses the record \<open>new\<close>, the consumer goroutine builds the error and
  \<^verbatim>\<open>updateRecords\<close> returns \<^verbatim>\<open>nil\<close>; with a second record still to be sent after the
  failure, \<^verbatim>\<open>updateRecords\<close> does not return.\<close>

theorem C2_updateRecords_never_reports:
  "(\<forall>err s'. updateRecords provider deliver toChange op s \<noteq> Some (Some err, s')) \<and>
   consumer (ex_provider [''new.stack.env.example.com'']) Add
      [rec_A ''new.stack.env.example.com'' [''10.0.0.3'']] [] =
     (Some (Add, rec_A ''new.stack.env.example.com'' [''10.0.0.3''], ''quota exceeded''), [],
      [(Add, rec_A ''new.stack.env.example.com'' [''10.0.0.3''])]) \<and>
   updateRecords (ex_provider [''new.stack.env.example.com'']) (\<lambda>vs. vs)
      [rec_A ''new.stack.env.example.com'' [''10.0.0.3'']] Add [] =
     Some (None, [(Add, rec_A ''new.stack.env.example.com'' [''10.0.0.3''])]) \<and>
   updateRecords (ex_provider [''new.stack.env.example.com'']) (\<lambda>vs. vs)
      [rec_A ''new.stack.env.example.com'' [''10.0.0.3''],
       rec_A ''api.stack.env.example.com'' [''10.0.0.4'']] Add [] = None"
proof (intro conjI allI)
  show "updateRecords provider deliver toChange op s \<noteq> Some (Some err, s')" for err s'
    by (rule updateRecords_nil_or_blocked)
qed (simp_all add: updateRecords_def provider_call_def ex_provider_def ex_call_def rec_A_def)

lemma three_phases:
  "(case (if A = [] then Some (None, s) else upd A Add s) of
      None \<Rightarrow> None
    | Some (Some err, s1) \<Rightarrow> Some (Some (n1 @ err), s1)
    | Some (None, s1) \<Rightarrow>
        (case (if R = [] then Some (None, s1) else upd R Remove s1) of
           None \<Rightarrow> None
         | Some (Some err, s2) \<Rightarrow> Some (Some (n2 @ err), s2)
         | Some (None, s2) \<Rightarrow>
             (case (if U = [] then Some (None, s2) else upd U Update s2) of
                None \<Rightarrow> None
              | Some (Some err, s3) \<Rightarrow> Some (Some (n3 @ err), s3)
              | Some (None, s3) \<Rightarrow> Some (None, s3)))) =
   phases_in_order upd [(n1, Add, A), (n2, Remove, R), (n3, Update, U)] s"
  by (cases "A = []"; cases "R = []"; cases "U = []") (simp_all split: option.splits)

text \<open>C5. A failure of the discovery source ends the pass with the wrapped error and the
  provider's state untouched; so does a failure of the provider's read. Otherwise the pass
  is the three phases run in the order add, remove, update on the three differences of the
  desired and the current set: the first phase that returns an error ends the pass with
  that error wrapped in the phase's text, and no later phase is run.\<close>

theorem C5_pass_order:
  "(GetContainers m = Inl err \<longrightarrow>
      UpdateDnsRecords upd rng lower env root provider m s =
        Some (Some (''Error reading external dns entries: '' @ err), s)) \<and>
   (GetContainers m = Inr cs \<and> GetRecords provider s = Inl err \<longrightarrow>
      UpdateDnsRecords upd rng lower env root provider m s =
        Some (Some (''Provider error reading dns entries: '' @ err), s)) \<and>
   (GetContainers m = Inr cs \<and>
    getProviderDnsRecords lower env root (GetRecords provider s) = Inr current \<longrightarrow>
      UpdateDnsRecords upd rng lower env root provider m s =
        (let desired = fst (getMetadataDnsRecords lower env root m)
         in phases_in_order upd
              [(''Failed to add missing records: '', Add,
                  toAdd (rng Add desired) desired current),
               (''Failed to remove extra records: '', Remove,
                  toRemove (rng Remove current) desired current),
               (''Failed to update existing records records: '', Update,
                  toUpdate (rng Update desired) desired current)] s))"
proof (intro conjI impI)
  assume "GetContainers m = Inl err"
  then have "getMetadataDnsRecords lower env root m = (Map.empty, Some err)"
    by (simp add: getMetadataDnsRecords_def getContainersDnsRecords_def)
  then show "UpdateDnsRecords upd rng lower env root provider m s =
        Some (Some (''Error reading external dns entries: '' @ err), s)"
    by (simp add: UpdateDnsRecords_def)
next
  assume a: "GetContainers m = Inr cs \<and> GetRecords provider s = Inl err"
  then have "snd (getMetadataDnsRecords lower env root m) = None"
    by (simp add: getMetadataDnsRecords_def getContainersDnsRecords_def)
  then obtain desired where d: "getMetadataDnsRecords lower env root m = (desired, None)"
    by (cases "getMetadataDnsRecords lower env root m") simp
  from a have "getProviderDnsRecords lower env root (GetRecords provider s) = Inl err"
    by (simp add: getProviderDnsRecords_def)
  with d show "UpdateDnsRecords upd rng lower env root provider m s =
        Some (Some (''Provider error reading dns entries: '' @ err), s)"
    by (simp add: UpdateDnsRecords_def)
next
  assume a: "GetContainers m = Inr cs \<and>
    getProviderDnsRecords lower env root (GetRecords provider s) = Inr current"
  then have "snd (getMetadataDnsRecords lower env root m) = None"
    by (simp add: getMetadataDnsRecords_def getContainersDnsRecords_def)
  then obtain desired where d: "getMetadataDnsRecords lower env root m = (desired, None)"
    by (cases "getMetadataDnsRecords lower env root m") simp
  from a have c: "getProviderDnsRecords lower env root (GetRecords provider s) = Inr current"
    by simp
  show "UpdateDnsRecords upd rng lower env root provider m s =
        (let desired = fst (getMetadataDnsRecords lower env root m)
         in phases_in_order upd
              [(''Failed to add missing records: '', Add,
                  toAdd (rng Add desired) desired current),
               (''Failed to remove extra records: '', Remove,
                  toRemove (rng Remove current) desired current),
               (''Failed to update existing records records: '', Update,
                  toUpdate (rng Update desired) desired current)] s)"
  proof -
    define A where "A = toAdd (rng Add desired) desired current"
    define R where "R = toRemove (rng Remove current) desired current"
    define U where "U = toUpdate (rng Update desired) desired current"
    have phases:
      "addMissingRecords upd (rng Add desired) desired current s' =
         (if A = [] then Some (None, s') else upd A Add s')"
      "removeExtraRecords upd (rng Remove current) desired current s' =
         (if R = [] then Some (None, s') else upd R Remove s')"
      "updateExistingRecords upd (rng Update desired) desired current s' =
         (if U = [] then Some (None, s') else upd U Update s')" for s'
      by (simp_all add: addMissingRecords_def removeExtraRecords_def
          updateExistingRecords_def A_def R_def U_def)
    have "UpdateDnsRecords upd rng lower env root provider m s =
          phases_in_order upd
              [(''Failed to add missing records: '', Add, A),
               (''Failed to remove extra records: '', Remove, R),
               (''Failed to update existing records records: '', Update, U)] s"
      unfolding UpdateDnsRecords_def d c
      by (simp only: prod.case sum.case option.case phases three_phases)
    then show ?thesis
      by (simp add: d A_def R_def U_def)
  qed
qed

lemma lower_api: "ToLower_ascii ''api.stack.env.example.com'' = ''api.stack.env.example.com''"
  by code_simp

lemma ex_pass_desired_eq:
  "getMetadataDnsRecords ToLower_ascii ''env'' ''example.com'' ex_handler_pass =
     (ex_pass_desired, None)"
  by (simp add: getMetadataDnsRecords_def getContainersDnsRecords_def ex_handler_pass_def
      ex_pass_containers_def ex_hosts_def container_step_def addToDnsEntries_eq lower_web lower_api rec_A_def
      Let_def ex_pass_desired_def)

lemma ex_pass_current_eq:
  "getProviderDnsRecords ToLower_ascii ''env'' ''example.com''
     (GetRecords (ex_reader (Inr ex_provider_records)) s) = Inr ex_pass_current"
  by (simp add: ex_reader_def ex_current ex_pass_current_def)

lemma ex_pass_lists:
  "toAdd (ex_rng Add ex_pass_desired) ex_pass_desired ex_pass_current =
     [rec_A ''api.stack.env.example.com'' [''10.0.0.1'']]"
  "toRemove (ex_rng Remove ex_pass_current) ex_pass_desired ex_pass_current =
     [rec_A ''old.stack.env.example.com'' [''10.0.0.9'']]"
  "toUpdate (ex_rng Update ex_pass_desired) ex_pass_desired ex_pass_current =
     [rec_A ''web.stack.env.example.com'' [''10.0.0.2'']]"
  by (simp_all add: toAdd_def toRemove_def toUpdate_def update_def value_set_def ex_rng_def
      ex_pass_desired_def ex_pass_current_def index_def rec_A_def)

theorem C5_pass_order_witness:
  "GetContainers ex_handler_down = Inl ''connection refused'' \<and>
   GetContainers ex_handler_pass = Inr ex_pass_containers \<and>
   getProviderDnsRecords ToLower_ascii ''env'' ''example.com''
     (GetRecords (ex_reader (Inr ex_provider_records)) []) = Inr ex_pass_current \<and>
   UpdateDnsRecords (ex_upd None) ex_rng ToLower_ascii ''env'' ''example.com''
       (ex_reader (Inr ex_provider_records)) ex_handler_down [] =
     Some (Some ''Error reading external dns entries: connection refused'', []) \<and>
   GetRecords (ex_reader (Inl ''timeout'')) [] = Inl ''timeout'' \<and>
   UpdateDnsRecords (ex_upd None) ex_rng ToLower_ascii ''env'' ''example.com''
       (ex_reader (Inl ''timeout'')) ex_handler_pass [] =
     Some (Some ''Provider error reading dns entries: timeout'', []) \<and>
   UpdateDnsRecords (ex_upd (Some Remove)) ex_rng ToLower_ascii ''env'' ''example.com''
       (ex_reader (Inr ex_provider_records)) ex_handler_pass [] =
     Some (Some ''Failed to remove extra records: boom'',
           [(Add, [rec_A ''api.stack.env.example.com'' [''10.0.0.1'']]),
            (Remove, [rec_A ''old.stack.env.example.com'' [''10.0.0.9'']])]) \<and>
   UpdateDnsRecords (ex_upd None) ex_rng ToLower_ascii ''env'' ''example.com''
       (ex_reader (Inr ex_provider_records)) ex_handler_pass [] =
     Some (None,
           [(Add, [rec_A ''api.stack.env.example.com'' [''10.0.0.1'']]),
            (Remove, [rec_A ''old.stack.env.example.com'' [''10.0.0.9'']]),
            (Update, [rec_A ''web.stack.env.example.com'' [''10.0.0.2'']])])"
proof -
  have down: "GetContainers ex_handler_down = Inl ''connection refused''"
    by (simp add: ex_handler_down_def)
  have up: "GetContainers ex_handler_pass = Inr ex_pass_containers"
    by (simp add: ex_handler_pass_def)
  have timeout: "GetRecords (ex_reader (Inl ''timeout'')) [] = Inl ''timeout''"
    by (simp add: ex_reader_def)
  note inst = C5_pass_order [where lower = ToLower_ascii and env = "''env''" and root = "''example.com''"
                    and rng = ex_rng and s = "[]" and cs = ex_pass_containers]
  have 1: "UpdateDnsRecords (ex_upd None) ex_rng ToLower_ascii ''env'' ''example.com''
       (ex_reader (Inr ex_provider_records)) ex_handler_down [] =
     Some (Some ''Error reading external dns entries: connection refused'', [])"
    using inst [where m = ex_handler_down and err = "''connection refused''"
                  and upd = "ex_upd None" and provider = "ex_reader (Inr ex_provider_records)",
                THEN conjunct1, rule_format, OF down]
    by simp
  have 2: "UpdateDnsRecords (ex_upd None) ex_rng ToLower_ascii ''env'' ''example.com''
       (ex_reader (Inl ''timeout'')) ex_handler_pass [] =
     Some (Some ''Provider error reading dns entries: timeout'', [])"
    using inst [where m = ex_handler_pass and err = "''timeout''"
                  and upd = "ex_upd None" and provider = "ex_reader (Inl ''timeout'')",
                THEN conjunct2, THEN conjunct1, rule_format, OF conjI [OF up timeout]]
    by simp
  have 3: "UpdateDnsRecords (ex_upd failing) ex_rng ToLower_ascii ''env'' ''example.com''
       (ex_reader (Inr ex_provider_records)) ex_handler_pass [] =
       phases_in_order (ex_upd failing)
         [(''Failed to add missing records: '', Add,
             [rec_A ''api.stack.env.example.com'' [''10.0.0.1'']]),
          (''Failed to remove extra records: '', Remove,
             [rec_A ''old.stack.env.example.com'' [''10.0.0.9'']]),
          (''Failed to update existing records records: '', Update,
             [rec_A ''web.stack.env.example.com'' [''10.0.0.2'']])] []" for failing
    using inst [where m = ex_handler_pass and upd = "ex_upd failing"
                  and provider = "ex_reader (Inr ex_provider_records)"
                  and current = ex_pass_current,
                THEN conjunct2, THEN conjunct2, rule_format,
                OF conjI [OF up ex_pass_current_eq [of "[]"]]]
    unfolding ex_pass_desired_eq Let_def fst_conv ex_pass_lists .
  show ?thesis
    unfolding 1 2 3 using down up timeout ex_pass_current_eq [of "[]"] by (simp add: ex_upd_def)
qed

text \<open>The pass with \<^verbatim>\<open>updateRecords\<close> itself, on a provider that refuses to add the
  record \<open>api\<close>: the failure is lost, the remove and update phases run, and the pass returns
  \<^verbatim>\<open>nil\<close>. The calls are listed phase by phase, as the model of \<open>updateRecords\<close> threads
  the provider's state.\<close>

lemma ex_provider_current:
  "getProviderDnsRecords ToLower_ascii ''env'' ''example.com''
     (GetRecords (ex_provider failing) s) = Inr ex_pass_current"
  by (simp add: ex_provider_def ex_current ex_pass_current_def)

lemma main_pass_loses_failure:
  "UpdateDnsRecords_main (\<lambda>vs. vs) ex_rng ToLower_ascii ''env'' ''example.com''
     (ex_provider [''api.stack.env.example.com'']) ex_handler_pass [] =
   Some (None,
         [(Add, rec_A ''api.stack.env.example.com'' [''10.0.0.1'']),
          (Remove, rec_A ''old.stack.env.example.com'' [''10.0.0.9'']),
          (Update, rec_A ''web.stack.env.example.com'' [''10.0.0.2''])])"
proof -
  let ?upd = "updateRecords (ex_provider [''api.stack.env.example.com'']) (\<lambda>vs. vs)"
  have a: "addMissingRecords ?upd (ex_rng Add ex_pass_desired) ex_pass_desired ex_pass_current [] =
      Some (None, [(Add, rec_A ''api.stack.env.example.com'' [''10.0.0.1''])])"
    unfolding addMissingRecords_def Let_def ex_pass_lists
    by (simp add: updateRecords_def provider_call_def ex_provider_def ex_call_def rec_A_def)
  have r: "removeExtraRecords ?upd (ex_rng Remove ex_pass_current) ex_pass_desired ex_pass_current
        [(Add, rec_A ''api.stack.env.example.com'' [''10.0.0.1''])] =
      Some (None, [(Add, rec_A ''api.stack.env.example.com'' [''10.0.0.1'']),
                   (Remove, rec_A ''old.stack.env.example.com'' [''10.0.0.9''])])"
    unfolding removeExtraRecords_def Let_def ex_pass_lists
    by (simp add: updateRecords_def provider_call_def ex_provider_def ex_call_def rec_A_def)
  have u: "updateExistingRecords ?upd (ex_rng Update ex_pass_desired) ex_pass_desired
        ex_pass_current
        [(Add, rec_A ''api.stack.env.example.com'' [''10.0.0.1'']),
         (Remove, rec_A ''old.stack.env.example.com'' [''10.0.0.9''])] =
      Some (None, [(Add, rec_A ''api.stack.env.example.com'' [''10.0.0.1'']),
                   (Remove, rec_A ''old.stack.env.example.com'' [''10.0.0.9'']),
                   (Update, rec_A ''web.stack.env.example.com'' [''10.0.0.2''])])"
    unfolding updateExistingRecords_def Let_def ex_pass_lists
    by (simp add: updateRecords_def provider_call_def ex_provider_def ex_call_def rec_A_def)
  show ?thesis
    unfolding UpdateDnsRecords_main_def UpdateDnsRecords_def ex_pass_desired_eq
      ex_provider_current
    by (simp add: a r u)
qed

end
